theory Spec2Isabelle
  imports Complex_Main
begin

section \<open>Python values and exceptions\<close>

text \<open>
  The script \<^verbatim>\<open>os-metrics-to-influxdb.py\<close> is one module: the function
  \<^verbatim>\<open>get_org_id\<close> and a module-level body that samples two floats, formats two
  lines and posts them in batches. Python \<^verbatim>\<open>str\<close> values are modelled as
  \<open>string\<close>; \<^verbatim>\<open>len\<close> is \<open>length\<close>.
\<close>

text \<open>
  The exceptions that can leave the modelled code. \<open>SystemExit\<close> is the one
  \<^verbatim>\<open>sys.exit()\<close> raises: the source always calls it with no argument, so
  its code is \<^verbatim>\<open>None\<close>. The others are raised by builtins, by the JSON decoder
  and by the \<^verbatim>\<open>requests\<close> library.
\<close>

datatype py_exc =
    SystemExit
  | ValueError
  | KeyError
  | IndexError
  | TypeError
  | JSONDecodeError
  | RecursionError
  | RequestException


text \<open>A Python \<^verbatim>\<open>float\<close>: a finite value, an infinity or not-a-number.\<close>

datatype pyfloat = Finite real | PosInf | NegInf | NaN

text \<open>
  What \<^verbatim>\<open>response.json()\<close> returns: \<^verbatim>\<open>None\<close>, a bool, an int, a float,
  a str, a list or a dict (as the list of its items; \<open>map_of\<close> looks a key up).
\<close>

datatype json =
    JNull
  | JBool bool
  | JInt int
  | JFloat pyfloat
  | JStr string
  | JArr "json list"
  | JObj "(string \<times> json) list"




section \<open>Arguments, requests and the environment\<close>

text \<open>
  \<^verbatim>\<open>--request_timeout\<close> has no \<^verbatim>\<open>type=\<close>: it is the int default 5, or
  a str from the command line or from \<^verbatim>\<open>REQUEST_TIMEOUT\<close>.
\<close>

datatype timeout_arg = TimeoutInt int | TimeoutStr string

text \<open>
  The namespace \<^verbatim>\<open>parse_args\<close> returns. \<^verbatim>\<open>--influxdb_token\<close> defaults to
  \<^verbatim>\<open>None\<close> when \<^verbatim>\<open>INFLUXDB_TOKEN\<close> is not set.
\<close>

record args =
  verbose :: bool
  influxdb_url :: string
  influxdb_org :: string
  influxdb_bucket :: string
  influxdb_token :: "string option"
  influxdb_rate_limit :: int
  influxdb_gzip :: bool
  request_timeout :: timeout_arg

text \<open>The keyword arguments of one \<^verbatim>\<open>requests.post\<close> call.\<close>

record post_request =
  post_url :: string
  post_timeout :: int
  post_headers :: "(string \<times> string) list"
  post_data :: string

text \<open>The arguments of one \<^verbatim>\<open>requests.get\<close> call.\<close>

record get_request =
  get_url :: string
  get_timeout :: int
  get_headers :: "(string \<times> string) list"

text \<open>
  A \<^verbatim>\<open>requests.Response\<close>. \<open>json_body\<close> is the outcome of \<^verbatim>\<open>.json()\<close> on it:
  the decoded value, or the exception the call raises. That is
  \<^verbatim>\<open>JSONDecodeError\<close> for a body that is not JSON, and it can be another one for a
  body the decoder refuses: \<^verbatim>\<open>ValueError\<close> for an integer with too many digits,
  \<^verbatim>\<open>RecursionError\<close> for nesting that is too deep.
\<close>

record response =
  status_code :: int
  content :: string
  json_body :: "py_exc + json"

text \<open>
  What the script takes from outside: the Python builtins it applies to values whose
  text form is not modelled (\<^verbatim>\<open>format\<close> of a float, \<^verbatim>\<open>int\<close> of a str,
  \<^verbatim>\<open>str\<close> of a value that is not a str), and the network. \<open>http_post n r\<close> is
  the outcome of the call with arguments \<open>r\<close> made after \<open>n\<close> earlier calls.
\<close>

record env =
  float_str :: "pyfloat \<Rightarrow> string"
  int_of_str :: "string \<Rightarrow> int option"
  str_of_json :: "json \<Rightarrow> string"
  http_post :: "nat \<Rightarrow> post_request \<Rightarrow> py_exc + response"
  http_get :: "get_request \<Rightarrow> py_exc + response"

text \<open>\<^verbatim>\<open>int(args.request_timeout)\<close>\<close>

definition py_int :: "env \<Rightarrow> timeout_arg \<Rightarrow> py_exc + int" where
  "py_int w t =
     (case t of
        TimeoutInt i \<Rightarrow> Inr i
      | TimeoutStr s \<Rightarrow> (case int_of_str w s of None \<Rightarrow> Inl ValueError | Some i \<Rightarrow> Inr i))"


text \<open>An optional str inside an f-string: \<^verbatim>\<open>None\<close> is rendered as its name.\<close>

definition fmt_opt :: "string option \<Rightarrow> string" where
  "fmt_opt t = (case t of None \<Rightarrow> ''None'' | Some s \<Rightarrow> s)"

section \<open>The line encoder\<close>

text \<open>
  \<^verbatim>\<open>metric_line_proto\<close>: the two f-strings over the sampled floats
  \<^verbatim>\<open>cpu_util\<close> and \<^verbatim>\<open>memory_util\<close>.
\<close>

definition metric_line_proto :: "env \<Rightarrow> pyfloat \<Rightarrow> pyfloat \<Rightarrow> string list" where
  "metric_line_proto w cpu_util memory_util =
     [ ''cpu_utilisation,host=ansible percent_usage='' @ float_str w cpu_util,
       ''memory_utilisation,host=ansible percent_usage='' @ float_str w memory_util ]"

section \<open>The transport\<close>

definition url :: "args \<Rightarrow> string" where
  "url a = influxdb_url a @ ''/api/v2/write?org='' @ influxdb_org a
             @ ''&bucket='' @ influxdb_bucket a @ ''&precision=s''"

text \<open>\<^verbatim>\<open>d.update({k: v})\<close> on a dict kept as the list of its items.\<close>

fun dict_update :: "(string \<times> string) list \<Rightarrow> string \<Rightarrow> string \<Rightarrow> (string \<times> string) list" where
  "dict_update [] k v = [(k, v)]"
| "dict_update ((k', v') # d) k v =
     (if k' = k then (k, v) # d else (k', v') # dict_update d k v)"

definition request_headers :: "args \<Rightarrow> (string \<times> string) list" where
  "request_headers a =
     (let h = [ (''Authorization'', ''Token '' @ fmt_opt (influxdb_token a)),
                (''Content-type'', ''text/plain; charset=utf-8''),
                (''Accept'', ''application/json'') ]
      in if influxdb_gzip a then dict_update h ''Content-Encoding'' ''gzip'' else h)"

section \<open>The batch loop\<close>

text \<open>
  The variables of the loop, the calls of \<^verbatim>\<open>requests.post\<close> made so far
  (\<open>posted\<close>) and what \<^verbatim>\<open>print\<close> has written (\<open>printed\<close>).
\<close>

record loop =
  to_send :: string
  counter :: int
  lines_to_send :: int
  posted :: "post_request list"
  printed :: "(int \<times> string) list"

definition newline :: char where
  "newline = CHR 0x0A"

text \<open>
  One iteration of \<^verbatim>\<open>for line in metric_line_proto\<close>. \<open>limit\<close> is the value of
  \<^verbatim>\<open>args.influxdb_rate_limit*1024\<close>, which does not change during the loop. The
  result is the exception that ends the script there, if any, and the variables.
  The arguments of \<^verbatim>\<open>requests.post\<close> are evaluated before the call, so a failing
  \<^verbatim>\<open>int(args.request_timeout)\<close> raises with no call made.
\<close>

definition iteration :: "env \<Rightarrow> args \<Rightarrow> int \<Rightarrow> loop \<Rightarrow> string \<Rightarrow> py_exc option \<times> loop" where
  "iteration w a limit s line =
     (let s1 = s\<lparr>lines_to_send := lines_to_send s - 1\<rparr>;
          s2 = s1\<lparr>counter := counter s1 + int (length line)\<rparr>;
          s3 = s2\<lparr>to_send := to_send s2 @ line @ [newline]\<rparr>
      in if counter s3 \<ge> limit \<or> lines_to_send s3 = 0 then
           (case py_int w (request_timeout a) of
              Inl e \<Rightarrow> (Some e, s3)
            | Inr t \<Rightarrow>
                (let r = \<lparr>post_url = url a, post_timeout = t,
                          post_headers = request_headers a, post_data = to_send s3\<rparr>;
                     s4 = s3\<lparr>posted := posted s3 @ [r]\<rparr>
                 in case http_post w (length (posted s3)) r of
                      Inl e \<Rightarrow> (Some e, s4)
                    | Inr resp \<Rightarrow>
                        (None, s4\<lparr>printed := printed s4 @ [(status_code resp, content resp)],
                                  counter := 0, to_send := []\<rparr>)))
         else (None, s3))"

fun for_loop :: "env \<Rightarrow> args \<Rightarrow> int \<Rightarrow> string list \<Rightarrow> loop \<Rightarrow> py_exc option \<times> loop" where
  "for_loop w a limit [] s = (None, s)"
| "for_loop w a limit (line # rest) s =
     (case iteration w a limit s line of
        (Some e, s') \<Rightarrow> (Some e, s')
      | (None, s') \<Rightarrow> for_loop w a limit rest s')"

text \<open>The variables as lines 138 to 141 set them.\<close>

definition init :: "string list \<Rightarrow> loop" where
  "init lines = \<lparr>to_send = [], counter = 0, lines_to_send = int (length lines),
                 posted = [], printed = []\<rparr>"

text \<open>The loop over a list of lines, from the initial variables.\<close>

definition batcher :: "env \<Rightarrow> args \<Rightarrow> int \<Rightarrow> string list \<Rightarrow> py_exc option \<times> loop" where
  "batcher w a limit lines = for_loop w a limit lines (init lines)"

text \<open>The module body from line 121 on, for given samples.\<close>

definition main :: "env \<Rightarrow> args \<Rightarrow> pyfloat \<Rightarrow> pyfloat \<Rightarrow> py_exc option \<times> loop" where
  "main w a cpu_util memory_util =
     batcher w a (influxdb_rate_limit a * 1024) (metric_line_proto w cpu_util memory_util)"

section \<open>The organisation lookup\<close>





section \<open>Batches\<close>

text \<open>
  The text the loop stages for a group of lines: each line followed by a newline, as
  \<^verbatim>\<open>to_send += f"{line}\\n"\<close> builds it.
\<close>

definition to_body :: "string list \<Rightarrow> string" where
  "to_body g = concat (map (\<lambda>line. line @ [newline]) g)"

text \<open>The value \<^verbatim>\<open>counter\<close> reaches over a group of lines: the sum of their lengths.\<close>

definition line_size :: "string list \<Rightarrow> int" where
  "line_size g = sum_list (map (\<lambda>line. int (length line)) g)"

text \<open>
  A gzip member starts with the two bytes 0x1F 0x8B (RFC 1952); a body that does not
  is not gzip data.
\<close>

definition gzip_magic :: "string \<Rightarrow> bool" where
  "gzip_magic b = (case b of c1 # c2 # _ \<Rightarrow> c1 = CHR 0x1F \<and> c2 = CHR 0x8B | _ \<Rightarrow> False)"

section \<open>Example inputs\<close>

text \<open>
  A server that answers every write with 204 and an empty body, and the organisation
  query with two matching entries; a runtime that formats the two sample values used
  below.
\<close>

definition two_orgs :: json where
  "two_orgs = JObj [(''orgs'', JArr [ JObj [(''id'', JStr ''0a1b2c3d4e5f6071''), (''name'', JStr ''acme'')],
                                      JObj [(''id'', JStr ''ffeeddccbbaa9988''), (''name'', JStr ''acme'')] ])]"

definition ok_env :: env where
  "ok_env = \<lparr>float_str = (\<lambda>x. if x = Finite 42.5 then ''42.5'' else ''17.0''),
            int_of_str = (\<lambda>s. None),
            str_of_json = (\<lambda>v. []),
            http_post = (\<lambda>n r. Inr \<lparr>status_code = 204, content = [], json_body = Inl JSONDecodeError\<rparr>),
            http_get = (\<lambda>r. Inr \<lparr>status_code = 200, content = [], json_body = Inr two_orgs\<rparr>)\<rparr>"




definition example_args :: args where
  "example_args = \<lparr>verbose = False, influxdb_url = ''http://localhost:8086'',
                    influxdb_org = ''acme'', influxdb_bucket = ''metrics'',
                    influxdb_token = Some ''s3cret'', influxdb_rate_limit = 100,
                    influxdb_gzip = False, request_timeout = TimeoutInt 5\<rparr>"

text \<open>The same arguments with \<^verbatim>\<open>--influxdb_gzip\<close>.\<close>

definition gzip_args :: args where
  "gzip_args = example_args\<lparr>influxdb_gzip := True\<rparr>"

section \<open>Facts about the loop\<close>

lemma to_body_Nil: "to_body [] = []"
  by (simp add: to_body_def)

lemma to_body_snoc: "to_body (g @ [l]) = to_body g @ l @ [newline]"
  by (simp add: to_body_def)

lemma to_body_concat: "concat (map to_body gs) = to_body (concat gs)"
  by (induction gs) (simp_all add: to_body_def)

lemma to_body_last: "g \<noteq> [] \<Longrightarrow> to_body g \<noteq> [] \<and> last (to_body g) = newline"
  by (cases g rule: rev_cases) (simp_all add: to_body_snoc)

lemma line_size_Nil: "line_size [] = 0"
  by (simp add: line_size_def)

lemma line_size_snoc: "line_size (g @ [l]) = line_size g + int (length l)"
  by (simp add: line_size_def)

text \<open>
  The four ways one iteration ends: the line is only staged; the flush is due but the
  timeout does not convert; the call is made and raises; the call returns.
\<close>

lemma iteration_cases:
  assumes "iteration w a L s line = (x, s')"
  obtains
    (stage) "\<not> (L \<le> counter s + int (length line) \<or> lines_to_send s - 1 = 0)"
      "x = None"
      "s' = s\<lparr>lines_to_send := lines_to_send s - 1, counter := counter s + int (length line),
              to_send := to_send s @ line @ [newline]\<rparr>"
  | (bad_timeout) e where "L \<le> counter s + int (length line) \<or> lines_to_send s - 1 = 0"
      "py_int w (request_timeout a) = Inl e" "x = Some e" "posted s' = posted s"
      "lines_to_send s' = lines_to_send s - 1"
      "counter s' = counter s + int (length line)"
      "to_send s' = to_send s @ line @ [newline]"
  | (post_fails) t e where "L \<le> counter s + int (length line) \<or> lines_to_send s - 1 = 0"
      "py_int w (request_timeout a) = Inr t" "x = Some e"
      "posted s' = posted s @ [\<lparr>post_url = url a, post_timeout = t,
          post_headers = request_headers a, post_data = to_send s @ line @ [newline]\<rparr>]"
      "lines_to_send s' = lines_to_send s - 1"
      "counter s' = counter s + int (length line)"
      "to_send s' = to_send s @ line @ [newline]"
  | (post_ok) t where "L \<le> counter s + int (length line) \<or> lines_to_send s - 1 = 0"
      "py_int w (request_timeout a) = Inr t" "x = None"
      "posted s' = posted s @ [\<lparr>post_url = url a, post_timeout = t,
          post_headers = request_headers a, post_data = to_send s @ line @ [newline]\<rparr>]"
      "lines_to_send s' = lines_to_send s - 1" "counter s' = 0" "to_send s' = []"
  using assms
  by (auto simp: iteration_def Let_def split: if_splits sum.splits)

text \<open>
  The invariant of the loop, from any state whose staged text is the body of a group
  \<open>g0\<close> and whose counter is that group's size: the calls made during the run carry the
  bodies of consecutive groups \<open>gs\<close> of \<open>g0 @ ls\<close>, and \<open>rest\<close> is what was not posted.
\<close>

lemma for_loop_groups:
  assumes "for_loop w a L ls s = (x, s')"
    and "lines_to_send s = int (length ls)"
    and "to_send s = to_body g0"
    and "counter s = line_size g0"
  shows "\<exists>gs rest. g0 @ ls = concat gs @ rest
           \<and> map post_data (posted s') = map post_data (posted s) @ map to_body gs
           \<and> (\<forall>g\<in>set gs. g \<noteq> [])
           \<and> (\<forall>i<length gs. L \<le> line_size (gs ! i) \<or> (Suc i = length gs \<and> rest = []))
           \<and> (x = None \<longrightarrow> rest = (if ls = [] then g0 else []))"
  using assms
proof (induction ls arbitrary: s g0)
  case Nil
  then show ?case
    by (intro exI[of _ "[]"] exI[of _ g0]) simp
next
  case (Cons line tl)
  obtain y s1 where it: "iteration w a L s line = (y, s1)"
    by (cases "iteration w a L s line")
  let ?g = "g0 @ [line]"
  have size_g: "line_size ?g = counter s + int (length line)"
    using Cons.prems(4) by (simp add: line_size_snoc)
  have body_g: "to_body ?g = to_send s @ line @ [newline]"
    using Cons.prems(3) by (simp add: to_body_snoc)
  have last_iff: "lines_to_send s - 1 = 0 \<longleftrightarrow> tl = []"
    using Cons.prems(2) by auto
  from it show ?case
  proof (cases rule: iteration_cases)
    case stage
    have run: "for_loop w a L tl s1 = (x, s')"
      using Cons.prems(1) it stage(2) by simp
    have "\<exists>gs rest. ?g @ tl = concat gs @ rest
           \<and> map post_data (posted s') = map post_data (posted s1) @ map to_body gs
           \<and> (\<forall>g\<in>set gs. g \<noteq> [])
           \<and> (\<forall>i<length gs. L \<le> line_size (gs ! i) \<or> (Suc i = length gs \<and> rest = []))
           \<and> (x = None \<longrightarrow> rest = (if tl = [] then ?g else []))"
      using Cons.prems(2) stage(3) size_g body_g
      by (intro Cons.IH[OF run]) simp_all
    moreover have "tl \<noteq> []" using stage(1) last_iff by simp
    moreover have "posted s1 = posted s" using stage(3) by simp
    ultimately show ?thesis by simp
  next
    case (bad_timeout e)
    have "x = Some e" "s' = s1"
      using Cons.prems(1) it bad_timeout(3) by simp_all
    then show ?thesis
      using bad_timeout(4)
      by (intro exI[of _ "[]"] exI[of _ "g0 @ line # tl"]) simp
  next
    case (post_fails t e)
    have "x = Some e" "s' = s1"
      using Cons.prems(1) it post_fails(3) by simp_all
    then show ?thesis
      using post_fails(1,4) size_g body_g last_iff
      by (intro exI[of _ "[?g]"] exI[of _ tl]) auto
  next
    case (post_ok t)
    have run: "for_loop w a L tl s1 = (x, s')"
      using Cons.prems(1) it post_ok(3) by simp
    have "\<exists>gs rest. [] @ tl = concat gs @ rest
           \<and> map post_data (posted s') = map post_data (posted s1) @ map to_body gs
           \<and> (\<forall>g\<in>set gs. g \<noteq> [])
           \<and> (\<forall>i<length gs. L \<le> line_size (gs ! i) \<or> (Suc i = length gs \<and> rest = []))
           \<and> (x = None \<longrightarrow> rest = (if tl = [] then [] else []))"
      using Cons.prems(2) post_ok(5,6,7)
      by (intro Cons.IH[OF run]) (simp_all add: to_body_Nil line_size_Nil)
    then obtain gs rest where g: "tl = concat gs @ rest"
        "map post_data (posted s') = map post_data (posted s1) @ map to_body gs"
        "\<forall>g\<in>set gs. g \<noteq> []"
        "\<forall>i<length gs. L \<le> line_size (gs ! i) \<or> (Suc i = length gs \<and> rest = [])"
        "x = None \<longrightarrow> rest = []"
      by auto
    have tl_nil: "tl = [] \<Longrightarrow> gs = [] \<and> rest = []"
      using g(1,3) by (cases gs) auto
    have "\<forall>i<length (?g # gs). L \<le> line_size ((?g # gs) ! i)
             \<or> (Suc i = length (?g # gs) \<and> rest = [])"
    proof (intro allI impI)
      fix i assume i: "i < length (?g # gs)"
      show "L \<le> line_size ((?g # gs) ! i) \<or> (Suc i = length (?g # gs) \<and> rest = [])"
      proof (cases i)
        case 0
        then show ?thesis
          using post_ok(1) size_g last_iff tl_nil by auto
      next
        case (Suc j)
        then show ?thesis using g(4) i by auto
      qed
    qed
    then show ?thesis
      using g post_ok(4) body_g
      by (intro exI[of _ "?g # gs"] exI[of _ rest]) auto
  qed
qed

lemma batcher_groups:
  "\<exists>gs rest. lines = concat gs @ rest
     \<and> map post_data (posted (snd (batcher w a L lines))) = map to_body gs
     \<and> (\<forall>g\<in>set gs. g \<noteq> [])
     \<and> (\<forall>i<length gs. L \<le> line_size (gs ! i) \<or> (Suc i = length gs \<and> rest = []))
     \<and> (fst (batcher w a L lines) = None \<longrightarrow> rest = [])"
proof -
  obtain x s' where run: "for_loop w a L lines (init lines) = (x, s')"
    by (cases "for_loop w a L lines (init lines)")
  have "\<exists>gs rest. [] @ lines = concat gs @ rest
           \<and> map post_data (posted s') = map post_data (posted (init lines)) @ map to_body gs
           \<and> (\<forall>g\<in>set gs. g \<noteq> [])
           \<and> (\<forall>i<length gs. L \<le> line_size (gs ! i) \<or> (Suc i = length gs \<and> rest = []))
           \<and> (x = None \<longrightarrow> rest = (if lines = [] then [] else []))"
    by (rule for_loop_groups[OF run]) (simp_all add: init_def to_body_Nil line_size_Nil)
  moreover have "posted (init lines) = []"
    by (simp add: init_def)
  ultimately show ?thesis
    by (simp add: batcher_def run)
qed

text \<open>The example server and arguments: every call returns.\<close>

lemma ok_iteration:
  "iteration ok_env example_args L s line =
     (let c = counter s + int (length line); t = to_send s @ line @ [newline]
      in if L \<le> c \<or> lines_to_send s - 1 = 0
         then (None, s\<lparr>lines_to_send := lines_to_send s - 1, counter := 0, to_send := [],
                 posted := posted s @ [\<lparr>post_url = url example_args, post_timeout = 5,
                     post_headers = request_headers example_args, post_data = t\<rparr>],
                 printed := printed s @ [(204, [])]\<rparr>)
         else (None, s\<lparr>lines_to_send := lines_to_send s - 1, counter := c, to_send := t\<rparr>))"
  by (simp add: iteration_def Let_def py_int_def ok_env_def example_args_def)

text \<open>While no exception ends the run, every line taken decrements \<open>lines_to_send\<close>.\<close>

lemma for_loop_lines_to_send:
  "for_loop w a L ls s = (None, s') \<Longrightarrow> lines_to_send s' = lines_to_send s - int (length ls)"
proof (induction ls arbitrary: s)
  case Nil
  then show ?case by simp
next
  case (Cons line tl)
  obtain y s1 where it: "iteration w a L s line = (y, s1)"
    by (cases "iteration w a L s line")
  have y: "y = None"
    using Cons.prems it by (cases y) simp_all
  have run: "for_loop w a L tl s1 = (None, s')"
    using Cons.prems it y by simp
  have "lines_to_send s1 = lines_to_send s - 1"
    using it by (cases rule: iteration_cases) simp_all
  then show ?case
    using Cons.IH[OF run] by simp
qed

text \<open>
  The groups are determined by the bodies: two ways of cutting the same lines into
  groups with the same bodies are the same, since every line adds at least its
  newline to a body.
\<close>

lemma to_body_append: "to_body (g @ h) = to_body g @ to_body h"
  by (simp add: to_body_def)

lemma to_body_eq_Nil: "to_body g = [] \<longleftrightarrow> g = []"
  by (cases g) (simp_all add: to_body_def)

lemma to_body_prefix_inj:
  assumes "g @ x = g' @ x'" and "to_body g = to_body g'"
  shows "g = g'"
proof -
  from assms(1) consider us where "g = g' @ us" | us where "g @ us = g'"
    by (auto simp: append_eq_append_conv2)
  then show ?thesis
  proof cases
    case 1
    then have "to_body us = []"
      using assms(2) by (simp add: to_body_append)
    then show ?thesis
      using 1 by (simp add: to_body_eq_Nil)
  next
    case 2
    have "to_body g' = to_body g @ to_body us"
      unfolding 2[symmetric] by (rule to_body_append)
    then have "to_body g = to_body g @ to_body us"
      using assms(2) by simp
    then have "to_body us = []"
      by simp
    then show ?thesis
      using 2 by (simp add: to_body_eq_Nil)
  qed
qed

lemma groups_unique:
  "concat gs @ r = concat gs' @ r' \<Longrightarrow> map to_body gs = map to_body gs' \<Longrightarrow> gs = gs'"
proof (induction gs arbitrary: gs')
  case Nil
  then show ?case by simp
next
  case (Cons g t)
  from Cons.prems(2) obtain g' t' where gs': "gs' = g' # t'"
      and b: "to_body g = to_body g'" and m: "map to_body t = map to_body t'"
    by (cases gs') auto
  have "g @ (concat t @ r) = g' @ (concat t' @ r')"
    using Cons.prems(1) gs' by simp
  then have eq: "g = g'"
    using b by (rule to_body_prefix_inj)
  then have "concat t @ r = concat t' @ r'"
    using Cons.prems(1) gs' by simp
  then have "t = t'"
    using m by (rule Cons.IH)
  then show ?case
    using eq gs' by simp
qed

text \<open>
  When the timeout converts and every call returns, no exception ends the loop.
\<close>

lemma for_loop_completes:
  assumes "py_int w (request_timeout a) = Inr t"
    and "\<And>n r. \<exists>resp. http_post w n r = Inr resp"
  shows "fst (for_loop w a L ls s) = None"
proof (induction ls arbitrary: s)
  case Nil
  show ?case by simp
next
  case (Cons line tl)
  obtain y s1 where it: "iteration w a L s line = (y, s1)"
    by (cases "iteration w a L s line")
  have "y = None"
  proof (cases y)
    case None
    then show ?thesis .
  next
    case (Some e)
    obtain resp where "http_post w (length (posted s))
        \<lparr>post_url = url a, post_timeout = t, post_headers = request_headers a,
         post_data = to_send s @ line @ [newline]\<rparr> = Inr resp"
      using assms(2) by blast
    then show ?thesis
      using it Some assms(1)
      by (simp add: iteration_def Let_def split: if_splits)
  qed
  then show ?case
    using it Cons.IH[of s1] by simp
qed

lemma batcher_completes:
  assumes "py_int w (request_timeout a) = Inr t"
    and "\<And>n r. \<exists>resp. http_post w n r = Inr resp"
  shows "fst (batcher w a L lines) = None"
  unfolding batcher_def using assms by (rule for_loop_completes)

section \<open>The claims about the batch loop\<close>

text \<open>
  C1. For every sequence of lines and every limit \<open>L\<close>, the bodies posted are the
  bodies of consecutive groups \<open>gs\<close> of the input, in order, with \<open>rest\<close> the lines not
  posted. A group is closed only when the sum of the lengths of its lines has reached
  \<open>L\<close> or when it is the last group and holds the final input line (\<open>rest = []\<close>); no
  group is empty. This holds for every run, also one that an exception ends.
\<close>

theorem batch_closed_at_threshold_or_final_line:
  "\<exists>gs rest. lines = concat gs @ rest
     \<and> map post_data (posted (snd (batcher w a L lines))) = map to_body gs
     \<and> (\<forall>g\<in>set gs. g \<noteq> [])
     \<and> (\<forall>i<length gs. L \<le> line_size (gs ! i) \<or> (Suc i = length gs \<and> rest = []))"
  using batcher_groups[of lines w a L] by blast

theorem batch_closed_at_threshold_or_final_line_witness:
  "map post_data (posted (snd (batcher ok_env example_args 2 [''ab'', ''c'', ''d''])))
     = map to_body [[''ab''], [''c'', ''d'']]
   \<and> (\<exists>gs rest. [''ab'', ''c'', ''d''] = concat gs @ rest
     \<and> map post_data (posted (snd (batcher ok_env example_args 2 [''ab'', ''c'', ''d''])))
         = map to_body gs
     \<and> (\<forall>g\<in>set gs. g \<noteq> [])
     \<and> (\<forall>i<length gs. 2 \<le> line_size (gs ! i) \<or> (Suc i = length gs \<and> rest = [])))"
proof
  show "map post_data (posted (snd (batcher ok_env example_args 2 [''ab'', ''c'', ''d''])))
     = map to_body [[''ab''], [''c'', ''d'']]"
    by (simp add: batcher_def init_def ok_iteration to_body_def)
  show "\<exists>gs rest. [''ab'', ''c'', ''d''] = concat gs @ rest
     \<and> map post_data (posted (snd (batcher ok_env example_args 2 [''ab'', ''c'', ''d''])))
         = map to_body gs
     \<and> (\<forall>g\<in>set gs. g \<noteq> [])
     \<and> (\<forall>i<length gs. 2 \<le> line_size (gs ! i) \<or> (Suc i = length gs \<and> rest = []))"
    by (rule batch_closed_at_threshold_or_final_line
          [of "[''ab'', ''c'', ''d'']" ok_env example_args 2])
qed

text \<open>
  C2. In a run that no exception ends, the bodies posted are the bodies of consecutive
  groups of the input whose concatenation, in order, is the input itself; so the
  posted text, joined, is every input line once, in order, each with its newline.
\<close>

theorem batches_concat_to_input:
  assumes "fst (batcher w a L lines) = None"
  shows "(\<exists>gs. concat gs = lines
            \<and> map post_data (posted (snd (batcher w a L lines))) = map to_body gs)
         \<and> concat (map post_data (posted (snd (batcher w a L lines)))) = to_body lines"
proof -
  from batcher_groups[of lines w a L]
  obtain gs rest where g: "lines = concat gs @ rest"
      "map post_data (posted (snd (batcher w a L lines))) = map to_body gs"
      "fst (batcher w a L lines) = None \<longrightarrow> rest = []"
    by (elim exE conjE)
  have c: "concat gs = lines"
    using g(1,3) assms by simp
  have "\<exists>gs. concat gs = lines
            \<and> map post_data (posted (snd (batcher w a L lines))) = map to_body gs"
    using c g(2) by (intro exI[of _ gs] conjI)
  moreover have "concat (map post_data (posted (snd (batcher w a L lines)))) = to_body lines"
    unfolding g(2) to_body_concat c ..
  ultimately show ?thesis ..
qed

theorem batches_concat_to_input_witness:
  "fst (batcher ok_env example_args 2 [''ab'', ''c'', ''d'']) = None
   \<and> ((\<exists>gs. concat gs = [''ab'', ''c'', ''d'']
        \<and> map post_data (posted (snd (batcher ok_env example_args 2 [''ab'', ''c'', ''d''])))
            = map to_body gs)
      \<and> concat (map post_data (posted (snd (batcher ok_env example_args 2 [''ab'', ''c'', ''d'']))))
          = to_body [''ab'', ''c'', ''d''])"
proof -
  have h: "fst (batcher ok_env example_args 2 [''ab'', ''c'', ''d'']) = None"
    by (simp add: batcher_def init_def ok_iteration)
  from h batches_concat_to_input[OF h] show ?thesis
    by (rule conjI)
qed

text \<open>
  C6. With the limit 100, a line of 50 characters is only staged (the counter is 50
  and nothing is posted), and the following line of 60 characters, the last one,
  closes one batch holding both; with further lines after it, it still closes that
  batch, by the threshold alone (110 is at least 100). A line of 150 characters is
  posted at once, whether or not other lines follow it. The program itself only runs
  the loop with a limit that is a multiple of 1024; the loop is the same for every
  limit.
\<close>

theorem threshold_boundary:
  assumes "length l1 = 50" and "length l2 = 60" and "length l3 = 150"
  shows "iteration w a 100 (init [l1, l2]) l1
           = (None, \<lparr>to_send = l1 @ [newline], counter = 50, lines_to_send = 1,
                     posted = [], printed = []\<rparr>)
       \<and> (fst (batcher w a 100 [l1, l2]) = None \<longrightarrow>
            map post_data (posted (snd (batcher w a 100 [l1, l2])))
              = [l1 @ [newline] @ l2 @ [newline]])
       \<and> (\<forall>rest t. py_int w (request_timeout a) = Inr t \<longrightarrow>
            map post_data (posted (snd (for_loop w a 100 [l1, l2] (init (l1 # l2 # rest)))))
              = [l1 @ [newline] @ l2 @ [newline]])
       \<and> (fst (batcher w a 100 [l3]) = None \<longrightarrow>
            map post_data (posted (snd (batcher w a 100 [l3]))) = [l3 @ [newline]])
       \<and> (\<forall>rest t. py_int w (request_timeout a) = Inr t \<longrightarrow>
            map post_data (posted (snd (iteration w a 100 (init (l3 # rest)) l3)))
              = [l3 @ [newline]])"
proof (intro conjI allI impI)
  show first: "iteration w a 100 (init [l1, l2]) l1
           = (None, \<lparr>to_send = l1 @ [newline], counter = 50, lines_to_send = 1,
                     posted = [], printed = []\<rparr>)"
    using assms(1) by (simp add: iteration_def init_def Let_def)
  show "map post_data (posted (snd (batcher w a 100 [l1, l2])))
              = [l1 @ [newline] @ l2 @ [newline]]"
    if "fst (batcher w a 100 [l1, l2]) = None"
    using that assms(2)
    by (simp add: batcher_def first)
       (simp add: iteration_def Let_def split: sum.splits)
  show "map post_data (posted (snd (for_loop w a 100 [l1, l2] (init (l1 # l2 # rest)))))
              = [l1 @ [newline] @ l2 @ [newline]]"
    if "py_int w (request_timeout a) = Inr t" for rest t
    using that assms(1,2)
    by (simp add: init_def iteration_def Let_def split: sum.splits)
  show "map post_data (posted (snd (batcher w a 100 [l3]))) = [l3 @ [newline]]"
    if "fst (batcher w a 100 [l3]) = None"
    using that assms(3)
    by (simp add: batcher_def init_def iteration_def Let_def split: sum.splits)
  show "map post_data (posted (snd (iteration w a 100 (init (l3 # rest)) l3)))
              = [l3 @ [newline]]"
    if "py_int w (request_timeout a) = Inr t" for rest t
    using that assms(3)
    by (simp add: init_def iteration_def Let_def split: sum.splits)
qed

theorem threshold_boundary_witness:
  "length (replicate 50 CHR ''a'') = 50 \<and> length (replicate 60 CHR ''b'') = 60
   \<and> length (replicate 150 CHR ''c'') = 150
   \<and> fst (batcher ok_env example_args 100 [replicate 50 CHR ''a'', replicate 60 CHR ''b'']) = None
   \<and> fst (batcher ok_env example_args 100 [replicate 150 CHR ''c'']) = None
   \<and> py_int ok_env (request_timeout example_args) = Inr 5
   \<and> posted (snd (iteration ok_env example_args 100
         (init [replicate 50 CHR ''a'', replicate 60 CHR ''b'']) (replicate 50 CHR ''a''))) = []
   \<and> map post_data (posted (snd (batcher ok_env example_args 100
         [replicate 50 CHR ''a'', replicate 60 CHR ''b''])))
       = [replicate 50 CHR ''a'' @ [newline] @ replicate 60 CHR ''b'' @ [newline]]
   \<and> map post_data (posted (snd (for_loop ok_env example_args 100
         [replicate 50 CHR ''a'', replicate 60 CHR ''b'']
         (init [replicate 50 CHR ''a'', replicate 60 CHR ''b'', ''d'']))))
       = [replicate 50 CHR ''a'' @ [newline] @ replicate 60 CHR ''b'' @ [newline]]
   \<and> map post_data (posted (snd (batcher ok_env example_args 100 [replicate 150 CHR ''c''])))
       = [replicate 150 CHR ''c'' @ [newline]]
   \<and> map post_data (posted (snd (iteration ok_env example_args 100
         (init [replicate 150 CHR ''c'', ''d'']) (replicate 150 CHR ''c''))))
       = [replicate 150 CHR ''c'' @ [newline]]"
proof -
  let ?l1 = "replicate 50 CHR ''a''" and ?l2 = "replicate 60 CHR ''b''"
  let ?l3 = "replicate 150 CHR ''c''"
  have h1: "length ?l1 = 50" and h2: "length ?l2 = 60" and h3: "length ?l3 = 150"
    by simp_all
  have r12: "fst (batcher ok_env example_args 100 [?l1, ?l2]) = None"
    by (simp add: batcher_def init_def ok_iteration Let_def)
  have r3: "fst (batcher ok_env example_args 100 [?l3]) = None"
    by (simp add: batcher_def init_def ok_iteration Let_def)
  have t: "py_int ok_env (request_timeout example_args) = Inr 5"
    by (simp add: py_int_def example_args_def)
  note c = threshold_boundary[OF h1 h2 h3, of ok_env example_args]
  have c1: "posted (snd (iteration ok_env example_args 100 (init [?l1, ?l2]) ?l1)) = []"
    using c by simp
  have c2: "map post_data (posted (snd (batcher ok_env example_args 100 [?l1, ?l2])))
       = [?l1 @ [newline] @ ?l2 @ [newline]]"
    using c r12 by blast
  have c2': "map post_data (posted (snd (for_loop ok_env example_args 100 [?l1, ?l2]
         (init [?l1, ?l2, ''d'']))))
       = [?l1 @ [newline] @ ?l2 @ [newline]]"
    using c t by blast
  have c3: "map post_data (posted (snd (batcher ok_env example_args 100 [?l3])))
       = [?l3 @ [newline]]"
    using c r3 by blast
  have c4: "map post_data (posted (snd (iteration ok_env example_args 100
         (init [?l3, ''d'']) ?l3))) = [?l3 @ [newline]]"
    using c t by blast
  from h1 h2 h3 r12 r3 t c1 c2 c2' c3 c4 show ?thesis
    by (intro conjI)
qed

text \<open>
  C7. Take any line of a run of the loop with the limit the program uses,
  \<^verbatim>\<open>args.influxdb_rate_limit*1024\<close>, and the variables \<open>s\<close> before that line. The
  flush is due exactly when \<open>counter s\<close> plus the length of the line, its newline not
  counted, has reached that limit, or the line is the last one. When it is not due the
  counter has grown by the length of the line and the buffer by the line and a
  newline. When it is due the body posted is the buffer with the line and a newline
  appended, and both are reset once the call has returned.
\<close>

theorem counter_buffer_threshold:
  assumes "lines = pre @ line # rest"
    and "for_loop w a (influxdb_rate_limit a * 1024) pre (init lines) = (None, s)"
    and "iteration w a (influxdb_rate_limit a * 1024) s line = (x, s')"
  shows "(if influxdb_rate_limit a * 1024 \<le> counter s + int (length line) \<or> rest = []
          then (x = None \<longrightarrow> counter s' = 0 \<and> to_send s' = []
                  \<and> (\<exists>r. posted s' = posted s @ [r]
                         \<and> post_data r = to_send s @ line @ [newline]))
             \<and> (x \<noteq> None \<longrightarrow> counter s' = counter s + int (length line)
                  \<and> to_send s' = to_send s @ line @ [newline])
          else x = None \<and> posted s' = posted s
             \<and> counter s' = counter s + int (length line)
             \<and> to_send s' = to_send s @ line @ [newline])
       \<and> main w a cpu_util memory_util
           = batcher w a (influxdb_rate_limit a * 1024) (metric_line_proto w cpu_util memory_util)"
proof
  have "lines_to_send s = lines_to_send (init lines) - int (length pre)"
    using assms(2) by (rule for_loop_lines_to_send)
  then have "lines_to_send s = int (length rest) + 1"
    using assms(1) by (simp add: init_def)
  then have last_iff: "lines_to_send s = 1 \<longleftrightarrow> rest = []"
    by simp
  from assms(3)
  show "if influxdb_rate_limit a * 1024 \<le> counter s + int (length line) \<or> rest = []
          then (x = None \<longrightarrow> counter s' = 0 \<and> to_send s' = []
                  \<and> (\<exists>r. posted s' = posted s @ [r]
                         \<and> post_data r = to_send s @ line @ [newline]))
             \<and> (x \<noteq> None \<longrightarrow> counter s' = counter s + int (length line)
                  \<and> to_send s' = to_send s @ line @ [newline])
          else x = None \<and> posted s' = posted s
             \<and> counter s' = counter s + int (length line)
             \<and> to_send s' = to_send s @ line @ [newline]"
    by (cases rule: iteration_cases) (simp_all add: last_iff)
  show "main w a cpu_util memory_util
           = batcher w a (influxdb_rate_limit a * 1024) (metric_line_proto w cpu_util memory_util)"
    by (simp add: main_def)
qed

theorem counter_buffer_threshold_witness:
  "[''ab'', ''c''] = [''ab''] @ ''c'' # []
   \<and> for_loop ok_env example_args (influxdb_rate_limit example_args * 1024) [''ab'']
         (init [''ab'', ''c''])
       = (None, \<lparr>to_send = ''ab'' @ [newline], counter = 2, lines_to_send = 1,
                 posted = [], printed = []\<rparr>)
   \<and> iteration ok_env example_args (influxdb_rate_limit example_args * 1024)
         \<lparr>to_send = ''ab'' @ [newline], counter = 2, lines_to_send = 1,
          posted = [], printed = []\<rparr> ''c''
       = (None, \<lparr>to_send = [], counter = 0, lines_to_send = 0,
                 posted = [\<lparr>post_url = url example_args, post_timeout = 5,
                            post_headers = request_headers example_args,
                            post_data = ''ab'' @ [newline] @ ''c'' @ [newline]\<rparr>],
                 printed = [(204, [])]\<rparr>)
   \<and> \<not> influxdb_rate_limit example_args * 1024 \<le> 2 + int (length ''c'')
   \<and> main ok_env example_args (Finite 42.5) (Finite 17)
       = batcher ok_env example_args (influxdb_rate_limit example_args * 1024)
           (metric_line_proto ok_env (Finite 42.5) (Finite 17))"
proof -
  let ?s = "\<lparr>to_send = ''ab'' @ [newline], counter = 2, lines_to_send = 1,
             posted = [], printed = []\<rparr>"
  let ?s' = "\<lparr>to_send = [], counter = 0, lines_to_send = 0,
                 posted = [\<lparr>post_url = url example_args, post_timeout = 5,
                            post_headers = request_headers example_args,
                            post_data = ''ab'' @ [newline] @ ''c'' @ [newline]\<rparr>],
                 printed = [(204, [])]\<rparr>"
  have h1: "[''ab'', ''c''] = [''ab''] @ ''c'' # []"
    by simp
  have h2: "for_loop ok_env example_args (influxdb_rate_limit example_args * 1024) [''ab'']
         (init [''ab'', ''c'']) = (None, ?s)"
    by (simp add: init_def ok_iteration) (simp add: example_args_def)
  have h3: "iteration ok_env example_args (influxdb_rate_limit example_args * 1024) ?s ''c''
       = (None, ?s')"
    by (simp add: ok_iteration)
  have n: "\<not> influxdb_rate_limit example_args * 1024 \<le> 2 + int (length ''c'')"
    by (simp add: example_args_def)
  from counter_buffer_threshold[OF h1 h2 h3, of "Finite 42.5" "Finite 17"]
  have m: "main ok_env example_args (Finite 42.5) (Finite 17)
       = batcher ok_env example_args (influxdb_rate_limit example_args * 1024)
           (metric_line_proto ok_env (Finite 42.5) (Finite 17))"
    by (rule conjunct2)
  from h1 h2 h3 n m show ?thesis
    by (intro conjI)
qed

text \<open>
  C8. For a single input line shorter than the limit, a run that no exception ends
  posts exactly one body, and it is that line with its newline.
\<close>

theorem single_short_line_one_batch:
  assumes "int (length line) < L"
    and "fst (batcher w a L [line]) = None"
  shows "map post_data (posted (snd (batcher w a L [line]))) = [line @ [newline]]"
  using assms
  by (simp add: batcher_def init_def iteration_def Let_def split: sum.splits)

theorem single_short_line_one_batch_witness:
  "int (length ''cpu_utilisation,host=ansible percent_usage=42.5'') < 102400
   \<and> fst (batcher ok_env example_args 102400
           [''cpu_utilisation,host=ansible percent_usage=42.5'']) = None
   \<and> map post_data (posted (snd (batcher ok_env example_args 102400
           [''cpu_utilisation,host=ansible percent_usage=42.5''])))
       = [''cpu_utilisation,host=ansible percent_usage=42.5'' @ [newline]]"
proof -
  have h1: "int (length ''cpu_utilisation,host=ansible percent_usage=42.5'') < 102400"
    by simp
  have h2: "fst (batcher ok_env example_args 102400
           [''cpu_utilisation,host=ansible percent_usage=42.5'']) = None"
    by (simp add: batcher_def init_def ok_iteration)
  from h1 h2 single_short_line_one_batch[OF h1 h2] show ?thesis
    by (intro conjI)
qed

text \<open>
  C10. Every body passed to \<^verbatim>\<open>requests.post\<close> is the text of a non-empty group
  of input lines, each line followed by a newline; so it is not empty and its last
  character is a newline.
\<close>

theorem posted_body_ends_with_newline:
  "\<forall>r\<in>set (posted (snd (batcher w a L lines))).
      (\<exists>g. g \<noteq> [] \<and> set g \<subseteq> set lines \<and> post_data r = to_body g)
      \<and> post_data r \<noteq> [] \<and> last (post_data r) = newline"
proof
  fix r assume r: "r \<in> set (posted (snd (batcher w a L lines)))"
  from batcher_groups[of lines w a L]
  obtain gs rest where g: "lines = concat gs @ rest"
      "map post_data (posted (snd (batcher w a L lines))) = map to_body gs"
      "\<forall>g\<in>set gs. g \<noteq> []"
    by (elim exE conjE)
  have "post_data r \<in> set (map post_data (posted (snd (batcher w a L lines))))"
    using r by simp
  then have "post_data r \<in> set (map to_body gs)"
    using g(2) by simp
  then obtain g0 where g0: "g0 \<in> set gs" "post_data r = to_body g0"
    by auto
  have ne: "g0 \<noteq> []"
    using g(3) g0(1) by simp
  have sub: "set g0 \<subseteq> set lines"
    using g(1) g0(1) by auto
  have "\<exists>g. g \<noteq> [] \<and> set g \<subseteq> set lines \<and> post_data r = to_body g"
    using ne sub g0(2) by (intro exI[of _ g0] conjI)
  moreover have "post_data r \<noteq> [] \<and> last (post_data r) = newline"
    unfolding g0(2) using ne by (rule to_body_last)
  ultimately show "(\<exists>g. g \<noteq> [] \<and> set g \<subseteq> set lines \<and> post_data r = to_body g)
      \<and> post_data r \<noteq> [] \<and> last (post_data r) = newline"
    by (rule conjI)
qed

theorem posted_body_ends_with_newline_witness:
  "map post_data (posted (snd (batcher ok_env example_args 2 [''ab'', ''c'', ''d''])))
     = [''ab'' @ [newline], ''c'' @ [newline] @ ''d'' @ [newline]]
   \<and> (\<exists>g. g \<noteq> [] \<and> set g \<subseteq> set [''ab'', ''c'', ''d'']
          \<and> ''ab'' @ [newline] = to_body g)
   \<and> last (''ab'' @ [newline]) = newline
   \<and> (\<exists>g. g \<noteq> [] \<and> set g \<subseteq> set [''ab'', ''c'', ''d'']
          \<and> ''c'' @ [newline] @ ''d'' @ [newline] = to_body g)
   \<and> last (''c'' @ [newline] @ ''d'' @ [newline]) = newline"
proof -
  let ?r1 = "\<lparr>post_url = url example_args, post_timeout = 5,
              post_headers = request_headers example_args,
              post_data = ''ab'' @ [newline]\<rparr>"
  let ?r2 = "\<lparr>post_url = url example_args, post_timeout = 5,
              post_headers = request_headers example_args,
              post_data = ''c'' @ [newline] @ ''d'' @ [newline]\<rparr>"
  have ps: "posted (snd (batcher ok_env example_args 2 [''ab'', ''c'', ''d''])) = [?r1, ?r2]"
    by (simp add: batcher_def init_def ok_iteration)
  note th = posted_body_ends_with_newline[of ok_env example_args 2 "[''ab'', ''c'', ''d'']"]
  have m1: "?r1 \<in> set (posted (snd (batcher ok_env example_args 2 [''ab'', ''c'', ''d''])))"
    unfolding ps by simp
  have m2: "?r2 \<in> set (posted (snd (batcher ok_env example_args 2 [''ab'', ''c'', ''d''])))"
    unfolding ps by simp
  have b1: "(\<exists>g. g \<noteq> [] \<and> set g \<subseteq> set [''ab'', ''c'', ''d'']
          \<and> ''ab'' @ [newline] = to_body g) \<and> last (''ab'' @ [newline]) = newline"
    using bspec[OF th m1] by simp
  have b2: "(\<exists>g. g \<noteq> [] \<and> set g \<subseteq> set [''ab'', ''c'', ''d'']
          \<and> ''c'' @ [newline] @ ''d'' @ [newline] = to_body g)
       \<and> last (''c'' @ [newline] @ ''d'' @ [newline]) = newline"
    using bspec[OF th m2] by simp
  have m: "map post_data (posted (snd (batcher ok_env example_args 2 [''ab'', ''c'', ''d''])))
     = [''ab'' @ [newline], ''c'' @ [newline] @ ''d'' @ [newline]]"
    unfolding ps by simp
  from m b1 b2 show ?thesis
    by blast
qed

section \<open>The claims about the transport, the lookup and the encoder\<close>

lemma content_encoding_header:
  "map_of (request_headers a) ''Content-Encoding''
     = (if influxdb_gzip a then Some ''gzip'' else None)"
  by (simp add: request_headers_def)

text \<open>
  C3. With \<^verbatim>\<open>--influxdb_gzip\<close> set and the samples 42.5 and 17.0, the program makes
  one call. Its headers say \<^verbatim>\<open>Content-Encoding: gzip\<close>, and its body is the two
  lines as plain text: it does not start with the two bytes every gzip stream starts
  with. The claim asks for a compressed body there.
\<close>

theorem gzip_header_on_plain_body:
  "map (\<lambda>r. (map_of (post_headers r) ''Content-Encoding'', post_data r))
       (posted (snd (main ok_env gzip_args (Finite 42.5) (Finite 17))))
     = [(Some ''gzip'',
         ''cpu_utilisation,host=ansible percent_usage=42.5'' @ [newline]
           @ ''memory_utilisation,host=ansible percent_usage=17.0'' @ [newline])]
   \<and> \<not> gzip_magic (''cpu_utilisation,host=ansible percent_usage=42.5'' @ [newline]
           @ ''memory_utilisation,host=ansible percent_usage=17.0'' @ [newline])"
proof
  have lines: "metric_line_proto ok_env (Finite 42.5) (Finite 17)
      = [''cpu_utilisation,host=ansible percent_usage=42.5'',
         ''memory_utilisation,host=ansible percent_usage=17.0'']"
    by (simp add: metric_line_proto_def ok_env_def)
  have limit: "influxdb_rate_limit gzip_args * 1024 = 102400"
    by (simp add: gzip_args_def example_args_def)
  have t: "py_int ok_env (request_timeout gzip_args) = Inr 5"
    by (simp add: py_int_def gzip_args_def example_args_def)
  have post: "http_post ok_env n r
      = Inr \<lparr>status_code = 204, content = [], json_body = Inl JSONDecodeError\<rparr>"
    for n r
    by (simp add: ok_env_def)
  have gz: "influxdb_gzip gzip_args"
    by (simp add: gzip_args_def)
  show "map (\<lambda>r. (map_of (post_headers r) ''Content-Encoding'', post_data r))
       (posted (snd (main ok_env gzip_args (Finite 42.5) (Finite 17))))
     = [(Some ''gzip'',
         ''cpu_utilisation,host=ansible percent_usage=42.5'' @ [newline]
           @ ''memory_utilisation,host=ansible percent_usage=17.0'' @ [newline])]"
    unfolding main_def lines limit
    by (simp add: batcher_def init_def iteration_def Let_def t post
          content_encoding_header gz)
  show "\<not> gzip_magic (''cpu_utilisation,host=ansible percent_usage=42.5'' @ [newline]
           @ ''memory_utilisation,host=ansible percent_usage=17.0'' @ [newline])"
    by (simp add: gzip_magic_def)
qed






text \<open>
  C5. For the CPU sample 42.5, which Python writes as \<^verbatim>\<open>42.5\<close>, the first encoded
  line is exactly \<^verbatim>\<open>cpu_utilisation,host=ansible percent_usage=42.5\<close>; it does not
  end with a newline.
\<close>

theorem encode_cpu_sample:
  assumes "float_str w (Finite 42.5) = ''42.5''"
  shows "metric_line_proto w (Finite 42.5) memory_util ! 0
           = ''cpu_utilisation,host=ansible percent_usage=42.5''
       \<and> last (metric_line_proto w (Finite 42.5) memory_util ! 0) \<noteq> newline"
  using assms by (simp add: metric_line_proto_def newline_def)

theorem encode_cpu_sample_witness:
  "float_str ok_env (Finite 42.5) = ''42.5''
   \<and> metric_line_proto ok_env (Finite 42.5) (Finite 17) ! 0
       = ''cpu_utilisation,host=ansible percent_usage=42.5''
   \<and> last (metric_line_proto ok_env (Finite 42.5) (Finite 17) ! 0) \<noteq> newline"
proof -
  have h: "float_str ok_env (Finite 42.5) = ''42.5''"
    by (simp add: ok_env_def)
  from h encode_cpu_sample[OF h, of "Finite 17"] show ?thesis
    by (rule conjI)
qed

end
